theory Spec2Isabelle
  imports Main "HOL-Library.Word"
begin

unbundle bit_operations_syntax

section \<open>The stubs of bigstringaf and the memory they work on\<close>

text \<open>
  \<^verbatim>\<open>bigstringaf_stubs.c\<close> holds five C functions called from OCaml. Each takes
  five OCaml values: two blocks (a Bigarray or a byte string), an offset into each, and
  one length; it turns them into two raw pointers and a \<^verbatim>\<open>size_t\<close> and calls
  \<^verbatim>\<open>memcpy\<close>, \<^verbatim>\<open>memmove\<close> or \<^verbatim>\<open>memcmp\<close> on them. Nothing else happens in the file: no
  capacity is read, no check is made, no error is reported.

  The model is a byte-addressed memory together with the descriptors of the blocks
  that live in it. Pointer arithmetic is arithmetic on addresses, so a call whose range
  leaves its block reaches whatever bytes lie next to it, as the machine does.
\<close>

subsection \<open>Bytes, addresses, memory\<close>

type_synonym byte = "8 word"
type_synonym addr = int
type_synonym memory = "addr \<Rightarrow> byte"

text \<open>\<open>load m a n\<close> is the \<open>n\<close> bytes at \<open>a, a+1, \<dots>\<close>; \<open>store m a xs\<close> writes
  \<open>xs\<close> there.\<close>

definition load :: "memory \<Rightarrow> addr \<Rightarrow> nat \<Rightarrow> byte list" where
  "load m a n = map (\<lambda>i. m (a + int i)) [0..<n]"

fun store :: "memory \<Rightarrow> addr \<Rightarrow> byte list \<Rightarrow> memory" where
  "store m a [] = m"
| "store m a (x # xs) = store (m(a := x)) (a + 1) xs"

subsection \<open>The C library\<close>

text \<open>
  The three library functions, after ISO C (7.24). \<^verbatim>\<open>memcpy\<close> is the ascending byte
  loop; C leaves its result open when the two ranges overlap, and the stubs call it only
  with one operand in a Bigarray and the other in an OCaml string. \<^verbatim>\<open>memmove\<close> copies
  as if through a temporary array.
\<close>

fun memcpy :: "memory \<Rightarrow> addr \<Rightarrow> addr \<Rightarrow> nat \<Rightarrow> memory" where
  "memcpy m dst src 0 = m"
| "memcpy m dst src (Suc n) = memcpy (m(dst := m src)) (dst + 1) (src + 1) n"

definition memmove :: "memory \<Rightarrow> addr \<Rightarrow> addr \<Rightarrow> nat \<Rightarrow> memory" where
  "memmove m dst src n = store m dst (load m src n)"

text \<open>
  \<^verbatim>\<open>memcmp\<close> reads both ranges as unsigned bytes and writes nothing (both its
  pointers are \<^verbatim>\<open>const\<close>). C fixes the sign of what it returns: that of the
  difference of the first pair of bytes that differ, \<open>diff_bytes\<close>, and 0 when there
  is none. Which negative or positive \<^verbatim>\<open>int\<close> it is, C leaves to the library, and
  libraries differ: one returns the byte difference, one returns \<open>-1\<close> or \<open>1\<close>,
  one the difference of whole words, and the path taken may depend on the two pointers.
  So the library is a parameter \<open>libc\<close>: from the two byte sequences and the two
  addresses it picks the magnitude, and \<open>memcmp\<close> ranges over the 32-bit integers of
  the sign that C fixes.
\<close>

fun diff_bytes :: "byte list \<Rightarrow> byte list \<Rightarrow> int" where
  "diff_bytes (x # xs) (y # ys) = (if x \<noteq> y then uint x - uint y else diff_bytes xs ys)"
| "diff_bytes xs ys = 0"

type_synonym libc = "byte list \<Rightarrow> byte list \<Rightarrow> addr \<Rightarrow> addr \<Rightarrow> nat"

definition memcmp :: "libc \<Rightarrow> memory \<Rightarrow> addr \<Rightarrow> addr \<Rightarrow> nat \<Rightarrow> int" where
  "memcmp libc m s1 s2 n =
     (let d = diff_bytes (load m s1 n) (load m s2 n);
          k = libc (load m s1 n) (load m s2 n) s1 s2
      in if d < 0 then - 1 - int (k mod 2 ^ 31)
         else if 0 < d then 1 + int (k mod (2 ^ 31 - 1))
         else 0)"

text \<open>
  Two libraries to run the stubs with. The first returns the byte difference itself.
  The second compares word by word once its first operand is aligned to 8 bytes and then
  reports \<open>-1\<close> or \<open>1\<close>; from any other address it goes byte by byte and returns
  the byte difference.
\<close>

definition bytewise_libc :: libc where
  "bytewise_libc xs ys s1 s2 = nat (\<bar>diff_bytes xs ys\<bar> - 1)"

definition aligning_libc :: libc where
  "aligning_libc xs ys s1 s2 =
     (if s1 mod 8 = 0 then 0 else nat (\<bar>diff_bytes xs ys\<bar> - 1))"

subsection \<open>OCaml values\<close>

text \<open>
  An OCaml \<^verbatim>\<open>value\<close> is one machine word (64 bits here). An integer \<open>n\<close> travels
  as \<open>2n + 1\<close>: \<^verbatim>\<open>Long_val(x)\<close> is \<^verbatim>\<open>x >> 1\<close> on the signed word, and
  \<^verbatim>\<open>Val_long(x)\<close> is \<^verbatim>\<open>(x << 1) + 1\<close>, with \<^verbatim>\<open>Val_int\<close> the same macro. The
  assignment \<^verbatim>\<open>size_t len = Long_val(vlen)\<close> converts a signed word to an unsigned one.
\<close>

type_synonym caml_value = "64 word"

definition Long_val :: "caml_value \<Rightarrow> int" where
  "Long_val x = sint (signed_drop_bit 1 x)"

definition Val_long :: "int \<Rightarrow> caml_value" where
  "Val_long x = push_bit 1 (word_of_int x) + 1"

definition Val_int :: "int \<Rightarrow> caml_value" where
  "Val_int x = Val_long x"

definition size_t :: "int \<Rightarrow> nat" where
  "size_t x = nat (x mod 2 ^ 64)"

text \<open>
  A block is described by where its bytes start and how many there are: for a Bigarray
  the \<^verbatim>\<open>data\<close> pointer and \<^verbatim>\<open>dim[0]\<close> of its \<^verbatim>\<open>caml_ba_array\<close>, for a string
  the address the value points to and its length. The state is the memory and the two
  tables of descriptors, indexed by the value that names the block.
\<close>

record region =
  base :: addr
  capacity :: nat

record heap =
  mem :: memory
  bigarray :: "caml_value \<Rightarrow> region"
  string :: "caml_value \<Rightarrow> region"

definition Caml_ba_data_val :: "heap \<Rightarrow> caml_value \<Rightarrow> addr" where
  "Caml_ba_data_val h v = base (bigarray h v)"

definition String_val :: "heap \<Rightarrow> caml_value \<Rightarrow> addr" where
  "String_val h v = base (string h v)"

subsection \<open>The five stubs\<close>

definition bigstringaf_blit_to_bytes ::
  "heap \<Rightarrow> caml_value \<Rightarrow> caml_value \<Rightarrow> caml_value \<Rightarrow> caml_value \<Rightarrow> caml_value \<Rightarrow> heap" where
  "bigstringaf_blit_to_bytes h vsrc vsrc_off vdst vdst_off vlen =
     (let src = Caml_ba_data_val h vsrc + Long_val vsrc_off;
          dst = String_val h vdst + Long_val vdst_off;
          len = size_t (Long_val vlen)
      in h\<lparr>mem := memcpy (mem h) dst src len\<rparr>)"

definition bigstringaf_blit_to_bigstring ::
  "heap \<Rightarrow> caml_value \<Rightarrow> caml_value \<Rightarrow> caml_value \<Rightarrow> caml_value \<Rightarrow> caml_value \<Rightarrow> heap" where
  "bigstringaf_blit_to_bigstring h vsrc vsrc_off vdst vdst_off vlen =
     (let src = Caml_ba_data_val h vsrc + Long_val vsrc_off;
          dst = Caml_ba_data_val h vdst + Long_val vdst_off;
          len = size_t (Long_val vlen)
      in h\<lparr>mem := memmove (mem h) dst src len\<rparr>)"

definition bigstringaf_blit_from_bytes ::
  "heap \<Rightarrow> caml_value \<Rightarrow> caml_value \<Rightarrow> caml_value \<Rightarrow> caml_value \<Rightarrow> caml_value \<Rightarrow> heap" where
  "bigstringaf_blit_from_bytes h vsrc vsrc_off vdst vdst_off vlen =
     (let src = String_val h vsrc + Long_val vsrc_off;
          dst = Caml_ba_data_val h vdst + Long_val vdst_off;
          len = size_t (Long_val vlen)
      in h\<lparr>mem := memcpy (mem h) dst src len\<rparr>)"

text \<open>The two comparisons return a value and leave the state as it is; the state is
  returned beside the result so that this can be said. They are linked against a C
  library, which is their first argument here.\<close>

definition bigstringaf_memcmp_bigstring ::
  "libc \<Rightarrow> heap \<Rightarrow> caml_value \<Rightarrow> caml_value \<Rightarrow> caml_value \<Rightarrow> caml_value \<Rightarrow> caml_value
     \<Rightarrow> caml_value \<times> heap" where
  "bigstringaf_memcmp_bigstring libc h vba1 vba1_off vba2 vba2_off vlen =
     (let ba1 = Caml_ba_data_val h vba1 + Long_val vba1_off;
          ba2 = Caml_ba_data_val h vba2 + Long_val vba2_off;
          len = size_t (Long_val vlen);
          result = memcmp libc (mem h) ba1 ba2 len
      in (Val_int result, h))"

definition bigstringaf_memcmp_string ::
  "libc \<Rightarrow> heap \<Rightarrow> caml_value \<Rightarrow> caml_value \<Rightarrow> caml_value \<Rightarrow> caml_value \<Rightarrow> caml_value
     \<Rightarrow> caml_value \<times> heap" where
  "bigstringaf_memcmp_string libc h vba vba_off vstr vstr_off vlen =
     (let buf1 = Caml_ba_data_val h vba + Long_val vba_off;
          buf2 = String_val h vstr + Long_val vstr_off;
          len = size_t (Long_val vlen);
          result = memcmp libc (mem h) buf1 buf2 len
      in (Val_int result, h))"

subsection \<open>Regions and views\<close>

text \<open>
  A view is a region with an offset and a length; it is in bounds when it lies inside
  the region. \<open>view_bytes\<close> and \<open>region_bytes\<close> read a view and a whole region off the
  memory. Two regions are \<open>separate\<close> when their address ranges do not meet, as those
  of two allocations are.
\<close>

definition in_bounds :: "region \<Rightarrow> int \<Rightarrow> int \<Rightarrow> bool" where
  "in_bounds r off len \<longleftrightarrow> 0 \<le> off \<and> 0 \<le> len \<and> off + len \<le> int (capacity r)"

definition view_bytes :: "heap \<Rightarrow> region \<Rightarrow> int \<Rightarrow> int \<Rightarrow> byte list" where
  "view_bytes h r off len = load (mem h) (base r + off) (nat len)"

definition region_bytes :: "heap \<Rightarrow> region \<Rightarrow> byte list" where
  "region_bytes h r = load (mem h) (base r) (capacity r)"

definition separate :: "region \<Rightarrow> region \<Rightarrow> bool" where
  "separate r1 r2 \<longleftrightarrow>
     base r1 + int (capacity r1) \<le> base r2 \<or> base r2 + int (capacity r2) \<le> base r1"

text \<open>The address \<open>x\<close> lies in the \<open>n\<close> bytes from \<open>a\<close>; the region \<open>r\<close> lies
  apart from them.\<close>

definition in_range :: "addr \<Rightarrow> nat \<Rightarrow> addr \<Rightarrow> bool" where
  "in_range a n x \<longleftrightarrow> a \<le> x \<and> x < a + int n"

definition apart :: "region \<Rightarrow> addr \<Rightarrow> nat \<Rightarrow> bool" where
  "apart r a n \<longleftrightarrow> base r + int (capacity r) \<le> a \<or> a + int n \<le> base r"

text \<open>The \<open>n\<close> bytes from \<open>a\<close> and the \<open>n\<close> bytes from \<open>b\<close> do not meet.\<close>

definition disjoint_ranges :: "addr \<Rightarrow> addr \<Rightarrow> nat \<Rightarrow> bool" where
  "disjoint_ranges a b n \<longleftrightarrow> a + int n \<le> b \<or> b + int n \<le> a"

subsection \<open>A small heap to run the stubs on\<close>

text \<open>
  Four Bigarrays and two strings: the bytes \<open>0..9\<close> at address 100, four bytes \<open>9\<close> at
  120, \<open>[1,2,3]\<close> at 130 and \<open>[1,2,4]\<close> at 140; the string \<open>ABCDE\<close> at 200 and five
  zero bytes at 220.
\<close>

definition ex_mem :: memory where
  "ex_mem =
     store (store (store (store (store (\<lambda>a. 0)
       100 [0, 1, 2, 3, 4, 5, 6, 7, 8, 9])
       120 [9, 9, 9, 9])
       130 [1, 2, 3])
       140 [1, 2, 4])
       200 [65, 66, 67, 68, 69]"

definition ex_bigarray :: "caml_value \<Rightarrow> region" where
  "ex_bigarray v =
     (if v = 8 then \<lparr>base = 100, capacity = 10\<rparr>
      else if v = 16 then \<lparr>base = 120, capacity = 4\<rparr>
      else if v = 24 then \<lparr>base = 130, capacity = 3\<rparr>
      else if v = 32 then \<lparr>base = 140, capacity = 3\<rparr>
      else \<lparr>base = 0, capacity = 0\<rparr>)"

definition ex_string :: "caml_value \<Rightarrow> region" where
  "ex_string v =
     (if v = 40 then \<lparr>base = 200, capacity = 5\<rparr>
      else if v = 48 then \<lparr>base = 220, capacity = 5\<rparr>
      else \<lparr>base = 0, capacity = 0\<rparr>)"

definition ex_heap :: heap where
  "ex_heap = \<lparr>mem = ex_mem, bigarray = ex_bigarray, string = ex_string\<rparr>"



section \<open>Facts about memory and the library functions\<close>

lemma length_load: "length (load m a n) = n"
  by (simp add: load_def)

lemma nth_load: "i < n \<Longrightarrow> load m a n ! i = m (a + int i)"
  by (simp add: load_def)

lemma load_Suc: "load m a (Suc n) = m a # load m (a + 1) n"
proof (rule nth_equalityI)
  show "length (load m a (Suc n)) = length (m a # load m (a + 1) n)"
    by (simp add: length_load)
next
  fix i assume "i < length (load m a (Suc n))"
  then have i: "i < Suc n" by (simp add: length_load)
  show "load m a (Suc n) ! i = (m a # load m (a + 1) n) ! i"
  proof (cases i)
    case 0
    then show ?thesis by (simp add: nth_load)
  next
    case (Suc j)
    with i have "j < n" by simp
    with Suc show ?thesis by (simp add: nth_load add.assoc)
  qed
qed

lemma load_eq_iff:
  "load m1 a n = load m2 b n \<longleftrightarrow> (\<forall>i<n. m1 (a + int i) = m2 (b + int i))"
  by (simp add: list_eq_iff_nth_eq length_load nth_load)

lemma load_append: "load m a (n + k) = load m a n @ load m (a + int n) k"
  by (rule nth_equalityI) (auto simp: length_load nth_load nth_append)

lemma take_load: "k \<le> n \<Longrightarrow> take k (load m a n) = load m a k"
  by (simp add: load_def take_map)

lemma store_apply:
  "store m a xs x =
     (if a \<le> x \<and> x < a + int (length xs) then xs ! nat (x - a) else m x)"
proof (induction xs arbitrary: m a)
  case Nil
  then show ?case by auto
next
  case (Cons y ys)
  have IH: "store (m(a := y)) (a + 1) ys x =
      (if a + 1 \<le> x \<and> x < a + 1 + int (length ys) then ys ! nat (x - (a + 1))
       else (m(a := y)) x)"
    by (rule Cons.IH)
  show ?case
  proof (cases "a + 1 \<le> x \<and> x < a + 1 + int (length ys)")
    case True
    then have "nat (x - a) = Suc (nat (x - (a + 1)))" by linarith
    with True show ?thesis unfolding store.simps IH by simp
  next
    case False
    show ?thesis
    proof (cases "x = a")
      case True
      then show ?thesis unfolding store.simps IH by simp
    next
      case ne: False
      with False have "\<not> (a \<le> x \<and> x < a + int (length (y # ys)))" by auto
      with False ne show ?thesis unfolding store.simps IH by auto
    qed
  qed
qed

lemma memmove_apply:
  "memmove m dst src n x =
     (if dst \<le> x \<and> x < dst + int n then m (src + (x - dst)) else m x)"
proof (cases "dst \<le> x \<and> x < dst + int n")
  case True
  then have lt: "nat (x - dst) < n" and eq: "int (nat (x - dst)) = x - dst" by auto
  have "memmove m dst src n x = load m src n ! nat (x - dst)"
    using True by (simp add: memmove_def store_apply length_load)
  also have "\<dots> = m (src + (x - dst))"
    using nth_load [OF lt, of m src] eq by simp
  finally show ?thesis using True by simp
next
  case False
  have "memmove m dst src n x = m x"
    unfolding memmove_def store_apply length_load using False by (rule if_not_P)
  then show ?thesis using False by auto
qed

lemma load_memmove: "load (memmove m dst src n) dst n = load m src n"
  by (simp add: load_eq_iff memmove_apply)

lemma memcpy_outside:
  "\<not> (dst \<le> x \<and> x < dst + int n) \<Longrightarrow> memcpy m dst src n x = m x"
  by (induction m dst src n rule: memcpy.induct) auto

lemma memcpy_eq_memmove:
  "dst + int n \<le> src \<or> src + int n \<le> dst \<Longrightarrow> memcpy m dst src n = memmove m dst src n"
proof (induction n arbitrary: m dst src)
  case 0
  then show ?case by (simp add: memmove_def load_def)
next
  case (Suc n)
  let ?m = "m(dst := m src)"
  from Suc.prems have sep: "dst + 1 + int n \<le> src + 1 \<or> src + 1 + int n \<le> dst + 1"
    by auto
  have ld: "load ?m (src + 1) n = load m (src + 1) n"
    using Suc.prems by (auto simp: load_eq_iff)
  have "memcpy m dst src (Suc n) = memmove ?m (dst + 1) (src + 1) n"
    by (simp only: memcpy.simps Suc.IH [OF sep])
  also have "\<dots> = store ?m (dst + 1) (load m (src + 1) n)"
    by (simp add: memmove_def ld)
  also have "\<dots> = memmove m dst src (Suc n)"
    by (simp add: memmove_def load_Suc)
  finally show ?case .
qed

lemma Long_val_Val_long:
  assumes "- (2 ^ 62) \<le> x" and "x < 2 ^ 62"
  shows "Long_val (Val_long x) = x"
proof -
  have e: "Val_long x = word_of_int (2 * x + 1)"
    by (simp add: Val_long_def push_bit_eq_mult)
  have r: "signed_take_bit 63 (2 * x + 1) = 2 * x + 1"
    using assms by (intro signed_take_bit_int_eq_self) auto
  have "sint (word_of_int (2 * x + 1) :: 64 word) = 2 * x + 1"
    by (simp only: sint_sbintrunc') (simp add: r)
  then show ?thesis
    unfolding Long_val_def e sint_signed_drop_bit_eq by (simp add: drop_bit_eq_div)
qed

lemma Long_val_range: "- (2 ^ 62) \<le> Long_val v \<and> Long_val v < 2 ^ 62"
proof -
  have "- (2 ^ 63) \<le> sint v" and "sint v < 2 ^ 63"
    using sint_ge [of v] sint_lt [of v] by simp_all
  then have "- 4611686018427387904 \<le> sint v div 2 \<and> sint v div 2 < 4611686018427387904"
    by simp presburger
  then show ?thesis
    unfolding Long_val_def sint_signed_drop_bit_eq by (simp add: drop_bit_eq_div)
qed

lemma size_t_Long_val: "0 \<le> Long_val v \<Longrightarrow> size_t (Long_val v) = nat (Long_val v)"
proof -
  assume "0 \<le> Long_val v"
  moreover have "Long_val v < 2 ^ 64" using Long_val_range [of v] by simp
  ultimately show ?thesis by (simp add: size_t_def)
qed




lemma diff_bytes_eq_0_iff:
  "length xs = length ys \<Longrightarrow> diff_bytes xs ys = 0 \<longleftrightarrow> xs = ys"
proof (induction xs ys rule: list_induct2)
  case Nil
  then show ?case by simp
next
  case (Cons x xs y ys)
  then show ?case by (simp add: word_uint_eq_iff)
qed

lemma diff_bytes_first:
  "length xs = length ys \<Longrightarrow> i < length xs \<Longrightarrow> take i xs = take i ys \<Longrightarrow>
   xs ! i \<noteq> ys ! i \<Longrightarrow> diff_bytes xs ys = uint (xs ! i) - uint (ys ! i)"
proof (induction xs ys arbitrary: i rule: list_induct2)
  case Nil
  then show ?case by simp
next
  case (Cons x xs y ys)
  show ?case
  proof (cases i)
    case 0
    with Cons.prems show ?thesis by simp
  next
    case (Suc k)
    with Cons.prems have "x = y" and "k < length xs" and "take k xs = take k ys"
      and "xs ! k \<noteq> ys ! k"
      by simp_all
    with Cons.IH [of k] Suc show ?thesis by simp
  qed
qed


lemma memcmp_cases:
  fixes d :: int and k :: nat
  assumes "r = (if d < 0 then - 1 - int (k mod 2 ^ 31)
      else if 0 < d then 1 + int (k mod (2 ^ 31 - 1)) else 0)"
  shows "- (2 ^ 31) \<le> r \<and> r < 2 ^ 31 \<and> (r < 0 \<longleftrightarrow> d < 0) \<and> (0 < r \<longleftrightarrow> 0 < d)"
proof -
  have a: "k mod 2147483648 < 2147483648"
    by (rule mod_less_divisor) simp
  have b: "k mod 2147483647 < 2147483647"
    by (rule mod_less_divisor) simp
  have a': "int (k mod 2147483648) < 2147483648" and a0: "0 \<le> int (k mod 2147483648)"
    using a by linarith+
  have b': "int (k mod 2147483647) < 2147483647" and b0: "0 \<le> int (k mod 2147483647)"
    using b by linarith+
  consider "d < 0" | "0 < d" | "d = 0" by linarith
  then show ?thesis
  proof cases
    case 1
    then have "r = - 1 - int (k mod 2147483648)" by (simp add: assms)
    with 1 a' a0 show ?thesis by simp
  next
    case 2
    then have "r = 1 + int (k mod 2147483647)" by (simp add: assms)
    with 2 b' b0 show ?thesis by simp
  next
    case 3
    then have "r = 0" by (simp add: assms)
    with 3 show ?thesis by simp
  qed
qed

lemma memcmp_range: "- (2 ^ 31) \<le> memcmp libc m p q n \<and> memcmp libc m p q n < 2 ^ 31"
  using memcmp_cases [OF refl] unfolding memcmp_def Let_def by blast

lemma memcmp_neg_iff:
  "memcmp libc m p q n < 0 \<longleftrightarrow> diff_bytes (load m p n) (load m q n) < 0"
  using memcmp_cases [OF refl] unfolding memcmp_def Let_def by blast

lemma memcmp_pos_iff:
  "0 < memcmp libc m p q n \<longleftrightarrow> 0 < diff_bytes (load m p n) (load m q n)"
  using memcmp_cases [OF refl] unfolding memcmp_def Let_def by blast

lemma memcmp_eq_0_iff: "memcmp libc m p q n = 0 \<longleftrightarrow> load m p n = load m q n"
proof -
  have "memcmp libc m p q n = 0 \<longleftrightarrow>
      \<not> memcmp libc m p q n < 0 \<and> \<not> 0 < memcmp libc m p q n"
    by linarith
  also have "\<dots> \<longleftrightarrow> diff_bytes (load m p n) (load m q n) = 0"
    unfolding memcmp_neg_iff memcmp_pos_iff by linarith
  also have "\<dots> \<longleftrightarrow> load m p n = load m q n"
    by (simp add: diff_bytes_eq_0_iff length_load)
  finally show ?thesis .
qed



lemma memcmp_0: "memcmp libc m p q 0 = 0"
  by (simp add: memcmp_def load_def)

lemma Long_val_Val_int_memcmp:
  "Long_val (Val_int (memcmp libc m p q n)) = memcmp libc m p q n"
proof -
  have "- (2 ^ 62) \<le> memcmp libc m p q n" and "memcmp libc m p q n < 2 ^ 62"
    using memcmp_range [of libc m p q n] by simp_all
  then show ?thesis unfolding Val_int_def by (rule Long_val_Val_long)
qed

section \<open>What each stub does to the state\<close>

lemma size_t_Val_long_0: "size_t (Long_val (Val_long 0)) = 0"
  by (simp add: size_t_def Long_val_def Val_long_def)

lemma memmove_0: "memmove m dst src 0 = m"
  by (simp add: memmove_def load_def)

lemma mem_blit_to_bytes:
  "mem (bigstringaf_blit_to_bytes h vsrc vsrc_off vdst vdst_off vlen) =
     memcpy (mem h) (base (string h vdst) + Long_val vdst_off)
       (base (bigarray h vsrc) + Long_val vsrc_off) (size_t (Long_val vlen))"
  by (simp add: bigstringaf_blit_to_bytes_def Caml_ba_data_val_def String_val_def)

lemma mem_blit_to_bigstring:
  "mem (bigstringaf_blit_to_bigstring h vsrc vsrc_off vdst vdst_off vlen) =
     memmove (mem h) (base (bigarray h vdst) + Long_val vdst_off)
       (base (bigarray h vsrc) + Long_val vsrc_off) (size_t (Long_val vlen))"
  by (simp add: bigstringaf_blit_to_bigstring_def Caml_ba_data_val_def)

lemma mem_blit_from_bytes:
  "mem (bigstringaf_blit_from_bytes h vsrc vsrc_off vdst vdst_off vlen) =
     memcpy (mem h) (base (bigarray h vdst) + Long_val vdst_off)
       (base (string h vsrc) + Long_val vsrc_off) (size_t (Long_val vlen))"
  by (simp add: bigstringaf_blit_from_bytes_def Caml_ba_data_val_def String_val_def)

lemma tables_blit:
  "bigarray (bigstringaf_blit_to_bytes h a b c d e) = bigarray h"
  "string (bigstringaf_blit_to_bytes h a b c d e) = string h"
  "bigarray (bigstringaf_blit_to_bigstring h a b c d e) = bigarray h"
  "string (bigstringaf_blit_to_bigstring h a b c d e) = string h"
  "bigarray (bigstringaf_blit_from_bytes h a b c d e) = bigarray h"
  "string (bigstringaf_blit_from_bytes h a b c d e) = string h"
  by (simp_all add: bigstringaf_blit_to_bytes_def bigstringaf_blit_to_bigstring_def
      bigstringaf_blit_from_bytes_def)

lemma result_memcmp_bigstring:
  "Long_val (fst (bigstringaf_memcmp_bigstring libc h vba1 vba1_off vba2 vba2_off vlen)) =
     memcmp libc (mem h) (base (bigarray h vba1) + Long_val vba1_off)
       (base (bigarray h vba2) + Long_val vba2_off) (size_t (Long_val vlen))"
  by (simp add: bigstringaf_memcmp_bigstring_def Caml_ba_data_val_def
      Long_val_Val_int_memcmp)

lemma result_memcmp_string:
  "Long_val (fst (bigstringaf_memcmp_string libc h vba vba_off vstr vstr_off vlen)) =
     memcmp libc (mem h) (base (bigarray h vba) + Long_val vba_off)
       (base (string h vstr) + Long_val vstr_off) (size_t (Long_val vlen))"
  by (simp add: bigstringaf_memcmp_string_def Caml_ba_data_val_def String_val_def
      Long_val_Val_int_memcmp)

lemma memcmp_sign:
  assumes "i < n" and "take i (load m p n) = take i (load m q n)"
    and "load m p n ! i \<noteq> load m q n ! i"
  shows "(memcmp libc m p q n < 0 \<longleftrightarrow> load m p n ! i < load m q n ! i) \<and>
         (0 < memcmp libc m p q n \<longleftrightarrow> load m q n ! i < load m p n ! i)"
proof -
  have "diff_bytes (load m p n) (load m q n) =
      uint (load m p n ! i) - uint (load m q n ! i)"
    using assms by (intro diff_bytes_first) (simp_all add: length_load)
  then show ?thesis
    unfolding memcmp_neg_iff memcmp_pos_iff by (simp add: word_less_def)
qed

section \<open>The claims\<close>

subsection \<open>Length zero\<close>

text \<open>
  C9. With length 0 each of the three copies returns the state it was given, and each of
  the two comparisons returns the OCaml integer 0, whatever the blocks and the offsets
  are.
\<close>

theorem zero_length_is_noop:
  "bigstringaf_blit_to_bytes h vsrc vsrc_off vdst vdst_off (Val_long 0) = h \<and>
   bigstringaf_blit_to_bigstring h vsrc vsrc_off vdst vdst_off (Val_long 0) = h \<and>
   bigstringaf_blit_from_bytes h vsrc vsrc_off vdst vdst_off (Val_long 0) = h \<and>
   bigstringaf_memcmp_bigstring libc h vsrc vsrc_off vdst vdst_off (Val_long 0) = (Val_int 0, h) \<and>
   bigstringaf_memcmp_string libc h vsrc vsrc_off vdst vdst_off (Val_long 0) = (Val_int 0, h) \<and>
   Long_val (fst (bigstringaf_memcmp_bigstring libc h vsrc vsrc_off vdst vdst_off (Val_long 0))) = 0 \<and>
   Long_val (fst (bigstringaf_memcmp_string libc h vsrc vsrc_off vdst vdst_off (Val_long 0))) = 0"
proof -
  have c1: "bigstringaf_blit_to_bytes h vsrc vsrc_off vdst vdst_off (Val_long 0) = h"
    by (simp add: bigstringaf_blit_to_bytes_def size_t_Val_long_0)
  have c2: "bigstringaf_blit_to_bigstring h vsrc vsrc_off vdst vdst_off (Val_long 0) = h"
    by (simp add: bigstringaf_blit_to_bigstring_def size_t_Val_long_0 memmove_0)
  have c3: "bigstringaf_blit_from_bytes h vsrc vsrc_off vdst vdst_off (Val_long 0) = h"
    by (simp add: bigstringaf_blit_from_bytes_def size_t_Val_long_0)
  have c4: "bigstringaf_memcmp_bigstring libc h vsrc vsrc_off vdst vdst_off (Val_long 0) = (Val_int 0, h)"
    by (simp add: bigstringaf_memcmp_bigstring_def size_t_Val_long_0 memcmp_0)
  have c5: "bigstringaf_memcmp_string libc h vsrc vsrc_off vdst vdst_off (Val_long 0) = (Val_int 0, h)"
    by (simp add: bigstringaf_memcmp_string_def size_t_Val_long_0 memcmp_0)
  have z: "Long_val (Val_int 0) = 0"
    by (simp add: Val_int_def Long_val_Val_long)
  show ?thesis
    unfolding c1 c2 c3 c4 c5 using z by simp
qed

subsection \<open>Comparisons read and do not write\<close>

text \<open>
  C8. Both comparisons hand back the state unchanged (memory and descriptors alike), and
  so a second call on the state the first one left returns the same value as the first.
\<close>

theorem compare_leaves_state:
  "snd (bigstringaf_memcmp_bigstring libc h vba1 vba1_off vba2 vba2_off vlen) = h \<and>
   snd (bigstringaf_memcmp_string libc h vba vba_off vstr vstr_off vlen) = h \<and>
   fst (bigstringaf_memcmp_bigstring libc
          (snd (bigstringaf_memcmp_bigstring libc h vba1 vba1_off vba2 vba2_off vlen))
          vba1 vba1_off vba2 vba2_off vlen) =
     fst (bigstringaf_memcmp_bigstring libc h vba1 vba1_off vba2 vba2_off vlen) \<and>
   fst (bigstringaf_memcmp_string libc
          (snd (bigstringaf_memcmp_string libc h vba vba_off vstr vstr_off vlen))
          vba vba_off vstr vstr_off vlen) =
     fst (bigstringaf_memcmp_string libc h vba vba_off vstr vstr_off vlen)"
proof -
  have s1: "snd (bigstringaf_memcmp_bigstring libc h vba1 vba1_off vba2 vba2_off vlen) = h"
    by (simp add: bigstringaf_memcmp_bigstring_def Let_def)
  have s2: "snd (bigstringaf_memcmp_string libc h vba vba_off vstr vstr_off vlen) = h"
    by (simp add: bigstringaf_memcmp_string_def Let_def)
  show ?thesis unfolding s1 s2 by simp
qed

subsection \<open>The bytes of the example heap\<close>

lemma ex_tables:
  "bigarray ex_heap 8 = \<lparr>base = 100, capacity = 10\<rparr>"
  "bigarray ex_heap 16 = \<lparr>base = 120, capacity = 4\<rparr>"
  "bigarray ex_heap 24 = \<lparr>base = 130, capacity = 3\<rparr>"
  "bigarray ex_heap 32 = \<lparr>base = 140, capacity = 3\<rparr>"
  "string ex_heap 40 = \<lparr>base = 200, capacity = 5\<rparr>"
  "string ex_heap 48 = \<lparr>base = 220, capacity = 5\<rparr>"
  by (simp_all add: ex_heap_def ex_bigarray_def ex_string_def)

lemma load_numeral:
  "load m a 0 = []"
  "load m a (numeral k) = m a # load m (a + 1) (pred_numeral k)"
  by (simp add: load_def) (simp add: numeral_eq_Suc load_Suc)

lemma ex_loads:
  "load (mem ex_heap) 100 10 = [0, 1, 2, 3, 4, 5, 6, 7, 8, 9]"
  "load (mem ex_heap) 120 4 = [9, 9, 9, 9]"
  "load (mem ex_heap) 130 3 = [1, 2, 3]"
  "load (mem ex_heap) 140 3 = [1, 2, 4]"
  "load (mem ex_heap) 200 5 = [65, 66, 67, 68, 69]"
  "load (mem ex_heap) 220 5 = [0, 0, 0, 0, 0]"
  by (simp_all add: ex_heap_def ex_mem_def load_numeral load_Suc)

lemma Long_val_numerals:
  "Long_val (Val_long 0) = 0" "Long_val (Val_long 1) = 1" "Long_val (Val_long 2) = 2"
  "Long_val (Val_long 3) = 3" "Long_val (Val_long 4) = 4" "Long_val (Val_long 5) = 5"
  "Long_val (Val_long 6) = 6"
  by (simp_all add: Long_val_Val_long)

subsection \<open>Copying inside Bigarrays\<close>

lemma load_memmove_outside:
  "a + int k \<le> dst \<or> dst + int n \<le> a \<Longrightarrow> load (memmove m dst src n) a k = load m a k"
  by (auto simp: load_eq_iff memmove_apply)

lemma load_memcpy:
  "dst + int n \<le> src \<or> src + int n \<le> dst \<Longrightarrow> load (memcpy m dst src n) dst n = load m src n"
  by (simp add: memcpy_eq_memmove load_memmove)

text \<open>
  C1. \<open>bigstringaf_blit_to_bigstring\<close> with a source view and a destination view of
  one length, both in bounds of their Bigarrays, which may be one and the same Bigarray
  and may overlap: afterwards the destination view holds the bytes the source view held
  before. And in a Bigarray holding the ten bytes \<open>0..9\<close>, the copy of the view at
  offset 0 of length 6 to the view at offset 2 leaves \<open>[0,1,0,1,2,3,4,5]\<close> in
  positions 0 to 7.
\<close>

theorem blit_to_bigstring_overlap:
  "(in_bounds (bigarray h vsrc) (Long_val vsrc_off) (Long_val vlen) \<and>
    in_bounds (bigarray h vdst) (Long_val vdst_off) (Long_val vlen) \<longrightarrow>
      view_bytes (bigstringaf_blit_to_bigstring h vsrc vsrc_off vdst vdst_off vlen)
          (bigarray h vdst) (Long_val vdst_off) (Long_val vlen) =
        view_bytes h (bigarray h vsrc) (Long_val vsrc_off) (Long_val vlen)) \<and>
   (region_bytes h (bigarray h v) = [0, 1, 2, 3, 4, 5, 6, 7, 8, 9] \<longrightarrow>
      take 8 (region_bytes
                (bigstringaf_blit_to_bigstring h v (Val_long 0) v (Val_long 2) (Val_long 6))
                (bigarray h v)) =
        [0, 1, 0, 1, 2, 3, 4, 5])"
proof (intro conjI impI)
  assume "in_bounds (bigarray h vsrc) (Long_val vsrc_off) (Long_val vlen) \<and>
    in_bounds (bigarray h vdst) (Long_val vdst_off) (Long_val vlen)"
  then have sz: "size_t (Long_val vlen) = nat (Long_val vlen)"
    by (simp add: in_bounds_def size_t_Long_val)
  show "view_bytes (bigstringaf_blit_to_bigstring h vsrc vsrc_off vdst vdst_off vlen)
          (bigarray h vdst) (Long_val vdst_off) (Long_val vlen) =
        view_bytes h (bigarray h vsrc) (Long_val vsrc_off) (Long_val vlen)"
    unfolding view_bytes_def mem_blit_to_bigstring sz by (rule load_memmove)
next
  assume r: "region_bytes h (bigarray h v) = [0, 1, 2, 3, 4, 5, 6, 7, 8, 9]"
  define b where "b = base (bigarray h v)"
  define m' where "m' = memmove (mem h) (b + 2) b 6"
  have "length (region_bytes h (bigarray h v)) = 10" unfolding r by simp
  then have cap: "capacity (bigarray h v) = 10"
    by (simp add: region_bytes_def length_load)
  have old: "load (mem h) b 10 = [0, 1, 2, 3, 4, 5, 6, 7, 8, 9]"
    using r by (simp add: region_bytes_def cap b_def)
  have m': "mem (bigstringaf_blit_to_bigstring h v (Val_long 0) v (Val_long 2) (Val_long 6)) = m'"
    by (simp add: mem_blit_to_bigstring Long_val_numerals size_t_def m'_def b_def)
  have six: "load (mem h) b 6 = [0, 1, 2, 3, 4, 5]"
    using take_load [of 6 10 "mem h" b] old by simp
  have two: "load (mem h) b 2 = [0, 1]"
    using take_load [of 2 10 "mem h" b] old by simp
  have hi: "load m' (b + 2) 6 = [0, 1, 2, 3, 4, 5]"
    unfolding m'_def load_memmove six ..
  have lo: "load m' b 2 = [0, 1]"
    unfolding m'_def using load_memmove_outside [of b 2 "b + 2" 6 "mem h" b] two by simp
  have "take 8 (load m' b 10) = load m' b (2 + 6)"
    by (simp add: take_load)
  also have "\<dots> = load m' b 2 @ load m' (b + int 2) 6"
    by (rule load_append)
  also have "\<dots> = [0, 1, 0, 1, 2, 3, 4, 5]"
    using hi lo by simp
  finally show "take 8 (region_bytes
                (bigstringaf_blit_to_bigstring h v (Val_long 0) v (Val_long 2) (Val_long 6))
                (bigarray h v)) = [0, 1, 0, 1, 2, 3, 4, 5]"
    by (simp add: region_bytes_def m' cap b_def)
qed

theorem blit_to_bigstring_overlap_witness:
  "in_bounds (bigarray ex_heap 8) (Long_val (Val_long 0)) (Long_val (Val_long 6)) \<and>
   in_bounds (bigarray ex_heap 8) (Long_val (Val_long 2)) (Long_val (Val_long 6)) \<and>
   region_bytes ex_heap (bigarray ex_heap 8) = [0, 1, 2, 3, 4, 5, 6, 7, 8, 9] \<and>
   view_bytes (bigstringaf_blit_to_bigstring ex_heap 8 (Val_long 0) 8 (Val_long 2) (Val_long 6))
       (bigarray ex_heap 8) (Long_val (Val_long 2)) (Long_val (Val_long 6)) =
     [0, 1, 2, 3, 4, 5] \<and>
   take 8 (region_bytes
             (bigstringaf_blit_to_bigstring ex_heap 8 (Val_long 0) 8 (Val_long 2) (Val_long 6))
             (bigarray ex_heap 8)) =
     [0, 1, 0, 1, 2, 3, 4, 5]"
proof -
  have ib: "in_bounds (bigarray ex_heap 8) (Long_val (Val_long 0)) (Long_val (Val_long 6)) \<and>
   in_bounds (bigarray ex_heap 8) (Long_val (Val_long 2)) (Long_val (Val_long 6))"
    by (simp add: in_bounds_def ex_tables Long_val_numerals)
  have rb: "region_bytes ex_heap (bigarray ex_heap 8) = [0, 1, 2, 3, 4, 5, 6, 7, 8, 9]"
    by (simp add: region_bytes_def ex_tables ex_loads)
  have src: "view_bytes ex_heap (bigarray ex_heap 8) (Long_val (Val_long 0)) (Long_val (Val_long 6)) =
     [0, 1, 2, 3, 4, 5]"
    using take_load [of 6 10 "mem ex_heap" 100]
    by (simp add: view_bytes_def ex_tables Long_val_numerals ex_loads)
  note t = blit_to_bigstring_overlap [of ex_heap 8 "Val_long 0" "Val_long 6" 8 "Val_long 2" 8]
  have a: "view_bytes (bigstringaf_blit_to_bigstring ex_heap 8 (Val_long 0) 8 (Val_long 2) (Val_long 6))
       (bigarray ex_heap 8) (Long_val (Val_long 2)) (Long_val (Val_long 6)) = [0, 1, 2, 3, 4, 5]"
    using t [THEN conjunct1] ib src by simp
  have b: "take 8 (region_bytes
             (bigstringaf_blit_to_bigstring ex_heap 8 (Val_long 0) 8 (Val_long 2) (Val_long 6))
             (bigarray ex_heap 8)) = [0, 1, 0, 1, 2, 3, 4, 5]"
    using t [THEN conjunct2] rb by blast
  from ib rb a b show ?thesis by blast
qed

subsection \<open>From a string into a Bigarray and back\<close>

lemma view_ranges_disjoint:
  assumes "in_bounds r1 o1 len" and "in_bounds r2 o2 len" and "separate r1 r2"
  shows "base r1 + o1 + int (nat len) \<le> base r2 + o2 \<or>
         base r2 + o2 + int (nat len) \<le> base r1 + o1"
  using assms unfolding in_bounds_def separate_def by auto

text \<open>
  C3. Let a string hold the bytes \<open>b\<close> in its first \<open>L\<close> positions, let a Bigarray
  have a view of length \<open>L\<close> in bounds, and let an output string have room for \<open>L\<close>
  bytes, the strings lying apart from the Bigarray. Then \<open>bigstringaf_blit_from_bytes\<close>
  from offset 0 of the first string into the view, followed by
  \<open>bigstringaf_blit_to_bytes\<close> from the view to offset 0 of the output string, leaves
  \<open>b\<close> in the first \<open>L\<close> positions of the output string.
\<close>

theorem blit_roundtrip:
  assumes "in_bounds (string h vb) 0 (Long_val vlen)"
    and "in_bounds (bigarray h vbuf) (Long_val vbuf_off) (Long_val vlen)"
    and "in_bounds (string h vout) 0 (Long_val vlen)"
    and "separate (string h vb) (bigarray h vbuf)"
    and "separate (string h vout) (bigarray h vbuf)"
    and "view_bytes h (string h vb) 0 (Long_val vlen) = b"
  shows "view_bytes
           (bigstringaf_blit_to_bytes
              (bigstringaf_blit_from_bytes h vb (Val_long 0) vbuf vbuf_off vlen)
              vbuf vbuf_off vout (Val_long 0) vlen)
           (string h vout) 0 (Long_val vlen) = b"
proof -
  define n where "n = nat (Long_val vlen)"
  define h1 where "h1 = bigstringaf_blit_from_bytes h vb (Val_long 0) vbuf vbuf_off vlen"
  define s where "s = base (string h vb)"
  define d where "d = base (bigarray h vbuf) + Long_val vbuf_off"
  define t where "t = base (string h vout)"
  have sz: "size_t (Long_val vlen) = n"
    unfolding n_def using assms(2) by (simp add: in_bounds_def size_t_Long_val)
  have sd: "d + int n \<le> s \<or> s + int n \<le> d"
    unfolding n_def s_def d_def
    using view_ranges_disjoint [OF assms(1,2,4)] by auto
  have td: "t + int n \<le> d \<or> d + int n \<le> t"
    unfolding n_def t_def d_def
    using view_ranges_disjoint [OF assms(3,2,5)] by auto
  have m1: "mem h1 = memcpy (mem h) d s n"
    unfolding h1_def mem_blit_from_bytes sz s_def d_def by (simp add: Long_val_numerals)
  have t1: "bigarray h1 = bigarray h" "string h1 = string h"
    unfolding h1_def by (rule tables_blit)+
  have m2: "mem (bigstringaf_blit_to_bytes h1 vbuf vbuf_off vout (Val_long 0) vlen) =
      memcpy (mem h1) t d n"
    unfolding mem_blit_to_bytes sz t1 t_def d_def by (simp add: Long_val_numerals)
  have "load (memcpy (mem h1) t d n) t n = load (mem h1) d n"
    using td by (rule load_memcpy)
  also have "\<dots> = load (mem h) s n"
    unfolding m1 using sd by (rule load_memcpy)
  finally have "load (memcpy (mem h1) t d n) t n = load (mem h) s n" .
  then have "view_bytes (bigstringaf_blit_to_bytes h1 vbuf vbuf_off vout (Val_long 0) vlen)
      (string h vout) 0 (Long_val vlen) = view_bytes h (string h vb) 0 (Long_val vlen)"
    by (simp add: view_bytes_def m2 n_def t_def s_def Long_val_numerals)
  then show ?thesis
    unfolding h1_def assms(6) .
qed

theorem blit_roundtrip_witness:
  "in_bounds (string ex_heap 40) 0 (Long_val (Val_long 3)) \<and>
   in_bounds (bigarray ex_heap 8) (Long_val (Val_long 4)) (Long_val (Val_long 3)) \<and>
   in_bounds (string ex_heap 48) 0 (Long_val (Val_long 3)) \<and>
   separate (string ex_heap 40) (bigarray ex_heap 8) \<and>
   separate (string ex_heap 48) (bigarray ex_heap 8) \<and>
   view_bytes ex_heap (string ex_heap 40) 0 (Long_val (Val_long 3)) = [65, 66, 67] \<and>
   view_bytes
     (bigstringaf_blit_to_bytes
        (bigstringaf_blit_from_bytes ex_heap 40 (Val_long 0) 8 (Val_long 4) (Val_long 3))
        8 (Val_long 4) 48 (Val_long 0) (Val_long 3))
     (string ex_heap 48) 0 (Long_val (Val_long 3)) = [65, 66, 67]"
proof -
  have a: "in_bounds (string ex_heap 40) 0 (Long_val (Val_long 3))"
    and b: "in_bounds (bigarray ex_heap 8) (Long_val (Val_long 4)) (Long_val (Val_long 3))"
    and c: "in_bounds (string ex_heap 48) 0 (Long_val (Val_long 3))"
    by (simp_all add: in_bounds_def ex_tables Long_val_numerals)
  have d: "separate (string ex_heap 40) (bigarray ex_heap 8)"
    and e: "separate (string ex_heap 48) (bigarray ex_heap 8)"
    by (simp_all add: separate_def ex_tables)
  have f: "view_bytes ex_heap (string ex_heap 40) 0 (Long_val (Val_long 3)) = [65, 66, 67]"
    using take_load [of 3 5 "mem ex_heap" 200]
    by (simp add: view_bytes_def ex_tables Long_val_numerals ex_loads)
  from a b c d e f blit_roundtrip [OF a b c d e f] show ?thesis by blast
qed

subsection \<open>What a copy leaves alone\<close>

lemma region_bytes_kept:
  assumes "\<And>x. \<not> in_range d n x \<Longrightarrow> mem h' x = mem h x" and "apart r d n"
  shows "region_bytes h' r = region_bytes h r"
proof -
  have "mem h' (base r + int i) = mem h (base r + int i)" if "i < capacity r" for i
  proof (rule assms(1))
    show "\<not> in_range d n (base r + int i)"
      using assms(2) that unfolding in_range_def apart_def by auto
  qed
  then show ?thesis by (simp add: region_bytes_def load_eq_iff)
qed

lemma memcpy_frame: "\<not> in_range dst n x \<Longrightarrow> memcpy m dst src n x = m x"
  unfolding in_range_def by (rule memcpy_outside)

lemma memmove_frame: "\<not> in_range dst n x \<Longrightarrow> memmove m dst src n x = m x"
  unfolding in_range_def by (auto simp: memmove_apply)

text \<open>
  C7. Each of the three copies writes only the \<open>len\<close> bytes from the destination
  address (the destination block's first byte plus the destination offset): every other
  byte of the memory is as before, hence every byte of the destination region outside
  that range and every region lying apart from that range, such as a source region
  disjoint from it; and the descriptors of all blocks, which hold the capacities, are as
  before.
\<close>

theorem copies_write_destination_only:
  "(\<not> in_range (String_val h vdst + Long_val vdst_off) (size_t (Long_val vlen)) x \<longrightarrow>
      mem (bigstringaf_blit_to_bytes h vsrc vsrc_off vdst vdst_off vlen) x = mem h x) \<and>
   (apart r (String_val h vdst + Long_val vdst_off) (size_t (Long_val vlen)) \<longrightarrow>
      region_bytes (bigstringaf_blit_to_bytes h vsrc vsrc_off vdst vdst_off vlen) r =
        region_bytes h r) \<and>
   bigarray (bigstringaf_blit_to_bytes h vsrc vsrc_off vdst vdst_off vlen) = bigarray h \<and>
   string (bigstringaf_blit_to_bytes h vsrc vsrc_off vdst vdst_off vlen) = string h \<and>
   (\<not> in_range (Caml_ba_data_val h vdst + Long_val vdst_off) (size_t (Long_val vlen)) x \<longrightarrow>
      mem (bigstringaf_blit_to_bigstring h vsrc vsrc_off vdst vdst_off vlen) x = mem h x) \<and>
   (apart r (Caml_ba_data_val h vdst + Long_val vdst_off) (size_t (Long_val vlen)) \<longrightarrow>
      region_bytes (bigstringaf_blit_to_bigstring h vsrc vsrc_off vdst vdst_off vlen) r =
        region_bytes h r) \<and>
   bigarray (bigstringaf_blit_to_bigstring h vsrc vsrc_off vdst vdst_off vlen) = bigarray h \<and>
   string (bigstringaf_blit_to_bigstring h vsrc vsrc_off vdst vdst_off vlen) = string h \<and>
   (\<not> in_range (Caml_ba_data_val h vdst + Long_val vdst_off) (size_t (Long_val vlen)) x \<longrightarrow>
      mem (bigstringaf_blit_from_bytes h vsrc vsrc_off vdst vdst_off vlen) x = mem h x) \<and>
   (apart r (Caml_ba_data_val h vdst + Long_val vdst_off) (size_t (Long_val vlen)) \<longrightarrow>
      region_bytes (bigstringaf_blit_from_bytes h vsrc vsrc_off vdst vdst_off vlen) r =
        region_bytes h r) \<and>
   bigarray (bigstringaf_blit_from_bytes h vsrc vsrc_off vdst vdst_off vlen) = bigarray h \<and>
   string (bigstringaf_blit_from_bytes h vsrc vsrc_off vdst vdst_off vlen) = string h"
proof -
  define n where "n = size_t (Long_val vlen)"
  define ds where "ds = String_val h vdst + Long_val vdst_off"
  define db where "db = Caml_ba_data_val h vdst + Long_val vdst_off"
  define h1 where "h1 = bigstringaf_blit_to_bytes h vsrc vsrc_off vdst vdst_off vlen"
  define h2 where "h2 = bigstringaf_blit_to_bigstring h vsrc vsrc_off vdst vdst_off vlen"
  define h3 where "h3 = bigstringaf_blit_from_bytes h vsrc vsrc_off vdst vdst_off vlen"
  have f1: "mem h1 y = mem h y" if "\<not> in_range ds n y" for y
    unfolding h1_def mem_blit_to_bytes
    using that unfolding ds_def n_def String_val_def by (rule memcpy_frame)
  have f2: "mem h2 y = mem h y" if "\<not> in_range db n y" for y
    unfolding h2_def mem_blit_to_bigstring
    using that unfolding db_def n_def Caml_ba_data_val_def by (rule memmove_frame)
  have f3: "mem h3 y = mem h y" if "\<not> in_range db n y" for y
    unfolding h3_def mem_blit_from_bytes
    using that unfolding db_def n_def Caml_ba_data_val_def by (rule memcpy_frame)
  have r1: "region_bytes h1 r = region_bytes h r" if "apart r ds n"
    using f1 that by (rule region_bytes_kept)
  have r2: "region_bytes h2 r = region_bytes h r" if "apart r db n"
    using f2 that by (rule region_bytes_kept)
  have r3: "region_bytes h3 r = region_bytes h r" if "apart r db n"
    using f3 that by (rule region_bytes_kept)
  have t: "bigarray h1 = bigarray h" "string h1 = string h"
    "bigarray h2 = bigarray h" "string h2 = string h"
    "bigarray h3 = bigarray h" "string h3 = string h"
    unfolding h1_def h2_def h3_def by (rule tables_blit)+
  show ?thesis
    using f1 [of x] f2 [of x] f3 [of x] r1 r2 r3 t
    unfolding n_def ds_def db_def h1_def h2_def h3_def by blast
qed

theorem copies_write_destination_only_witness:
  "\<not> in_range (String_val ex_heap 48 + Long_val (Val_long 1)) (size_t (Long_val (Val_long 3))) 220 \<and>
   \<not> in_range (Caml_ba_data_val ex_heap 16 + Long_val (Val_long 1)) (size_t (Long_val (Val_long 3))) 120 \<and>
   apart (bigarray ex_heap 8) (String_val ex_heap 48 + Long_val (Val_long 1)) (size_t (Long_val (Val_long 3))) \<and>
   apart (bigarray ex_heap 8) (Caml_ba_data_val ex_heap 16 + Long_val (Val_long 1)) (size_t (Long_val (Val_long 3))) \<and>
   mem (bigstringaf_blit_to_bytes ex_heap 8 (Val_long 0) 48 (Val_long 1) (Val_long 3)) 220 =
     mem ex_heap 220 \<and>
   mem (bigstringaf_blit_to_bigstring ex_heap 8 (Val_long 0) 16 (Val_long 1) (Val_long 3)) 120 =
     mem ex_heap 120 \<and>
   mem (bigstringaf_blit_from_bytes ex_heap 40 (Val_long 0) 16 (Val_long 1) (Val_long 3)) 120 =
     mem ex_heap 120 \<and>
   region_bytes (bigstringaf_blit_to_bytes ex_heap 8 (Val_long 0) 48 (Val_long 1) (Val_long 3))
       (bigarray ex_heap 8) = region_bytes ex_heap (bigarray ex_heap 8) \<and>
   region_bytes (bigstringaf_blit_to_bigstring ex_heap 8 (Val_long 0) 16 (Val_long 1) (Val_long 3))
       (bigarray ex_heap 8) = region_bytes ex_heap (bigarray ex_heap 8) \<and>
   region_bytes (bigstringaf_blit_from_bytes ex_heap 40 (Val_long 0) 16 (Val_long 1) (Val_long 3))
       (bigarray ex_heap 8) = region_bytes ex_heap (bigarray ex_heap 8)"
proof -
  have sz: "size_t (Long_val (Val_long 3)) = 3"
    by (simp add: Long_val_numerals size_t_def)
  have a: "\<not> in_range (String_val ex_heap 48 + Long_val (Val_long 1)) (size_t (Long_val (Val_long 3))) 220"
    and b: "\<not> in_range (Caml_ba_data_val ex_heap 16 + Long_val (Val_long 1)) (size_t (Long_val (Val_long 3))) 120"
    and c: "apart (bigarray ex_heap 8) (String_val ex_heap 48 + Long_val (Val_long 1)) (size_t (Long_val (Val_long 3)))"
    and d: "apart (bigarray ex_heap 8) (Caml_ba_data_val ex_heap 16 + Long_val (Val_long 1)) (size_t (Long_val (Val_long 3)))"
    by (simp_all add: in_range_def apart_def String_val_def Caml_ba_data_val_def ex_tables
        Long_val_numerals sz)
  note t1 = copies_write_destination_only
    [of ex_heap 48 "Val_long 1" "Val_long 3" 220 8 "Val_long 0" "bigarray ex_heap 8"]
  note t2 = copies_write_destination_only
    [of ex_heap 16 "Val_long 1" "Val_long 3" 120 8 "Val_long 0" "bigarray ex_heap 8"]
  note t3 = copies_write_destination_only
    [of ex_heap 16 "Val_long 1" "Val_long 3" 120 40 "Val_long 0" "bigarray ex_heap 8"]
  from a b c d t1 t2 t3 show ?thesis by blast
qed

subsection \<open>No bounds are checked\<close>

lemma nat_Long_val_size_t: "0 \<le> Long_val vlen \<Longrightarrow> nat (Long_val vlen) = size_t (Long_val vlen)"
  by (simp add: size_t_Long_val)

text \<open>
  C2, as the code has it. The stubs compare no offset and no length with a capacity and
  have no error to report. For every length that is not negative and all offsets, in
  bounds or not: after \<open>bigstringaf_blit_to_bigstring\<close> the \<open>len\<close> bytes from the
  destination address hold the \<open>len\<close> bytes that lay from the source address, also
  where they lie beyond the end of the region; after \<open>bigstringaf_blit_to_bytes\<close> and
  \<open>bigstringaf_blit_from_bytes\<close> likewise, when the two address ranges do not meet;
  and the two comparisons return 0 exactly when the \<open>len\<close> bytes from the two
  addresses are the same.
\<close>

theorem copies_and_compares_ignore_capacity:
  assumes "0 \<le> Long_val vlen"
  shows "view_bytes (bigstringaf_blit_to_bigstring h vba vba_off vba2 vba2_off vlen)
             (bigarray h vba2) (Long_val vba2_off) (Long_val vlen) =
           view_bytes h (bigarray h vba) (Long_val vba_off) (Long_val vlen) \<and>
         (disjoint_ranges (String_val h vstr + Long_val vstr_off)
             (Caml_ba_data_val h vba + Long_val vba_off) (size_t (Long_val vlen)) \<longrightarrow>
           view_bytes (bigstringaf_blit_to_bytes h vba vba_off vstr vstr_off vlen)
               (string h vstr) (Long_val vstr_off) (Long_val vlen) =
             view_bytes h (bigarray h vba) (Long_val vba_off) (Long_val vlen)) \<and>
         (disjoint_ranges (Caml_ba_data_val h vba + Long_val vba_off)
             (String_val h vstr + Long_val vstr_off) (size_t (Long_val vlen)) \<longrightarrow>
           view_bytes (bigstringaf_blit_from_bytes h vstr vstr_off vba vba_off vlen)
               (bigarray h vba) (Long_val vba_off) (Long_val vlen) =
             view_bytes h (string h vstr) (Long_val vstr_off) (Long_val vlen)) \<and>
         (Long_val (fst (bigstringaf_memcmp_bigstring libc h vba vba_off vba2 vba2_off vlen)) = 0 \<longleftrightarrow>
            view_bytes h (bigarray h vba) (Long_val vba_off) (Long_val vlen) =
              view_bytes h (bigarray h vba2) (Long_val vba2_off) (Long_val vlen)) \<and>
         (Long_val (fst (bigstringaf_memcmp_string libc h vba vba_off vstr vstr_off vlen)) = 0 \<longleftrightarrow>
            view_bytes h (bigarray h vba) (Long_val vba_off) (Long_val vlen) =
              view_bytes h (string h vstr) (Long_val vstr_off) (Long_val vlen))"
proof -
  define n where "n = size_t (Long_val vlen)"
  define p where "p = base (bigarray h vba) + Long_val vba_off"
  define q where "q = base (bigarray h vba2) + Long_val vba2_off"
  define t where "t = base (string h vstr) + Long_val vstr_off"
  have nn: "nat (Long_val vlen) = n"
    unfolding n_def using assms by (rule nat_Long_val_size_t)
  have a: "load (memmove (mem h) q p n) q n = load (mem h) p n"
    by (rule load_memmove)
  have b: "load (memcpy (mem h) t p n) t n = load (mem h) p n" if "disjoint_ranges t p n"
    using that unfolding disjoint_ranges_def by (rule load_memcpy)
  have c: "load (memcpy (mem h) p t n) p n = load (mem h) t n" if "disjoint_ranges p t n"
    using that unfolding disjoint_ranges_def by (rule load_memcpy)
  have d: "memcmp libc (mem h) p q n = 0 \<longleftrightarrow> load (mem h) p n = load (mem h) q n"
    by (rule memcmp_eq_0_iff)
  have e: "memcmp libc (mem h) p t n = 0 \<longleftrightarrow> load (mem h) p n = load (mem h) t n"
    by (rule memcmp_eq_0_iff)
  show ?thesis
    unfolding view_bytes_def nn mem_blit_to_bigstring mem_blit_to_bytes mem_blit_from_bytes
      result_memcmp_bigstring result_memcmp_string Caml_ba_data_val_def String_val_def
    unfolding n_def [symmetric] p_def [symmetric] q_def [symmetric] t_def [symmetric]
    using a b c d e by blast
qed

theorem copies_and_compares_ignore_capacity_witness:
  "0 \<le> Long_val (Val_long 4) \<and>
   \<not> in_bounds (bigarray ex_heap 16) (Long_val (Val_long 2)) (Long_val (Val_long 4)) \<and>
   \<not> in_bounds (string ex_heap 40) (Long_val (Val_long 3)) (Long_val (Val_long 4)) \<and>
   disjoint_ranges (String_val ex_heap 40 + Long_val (Val_long 3))
     (Caml_ba_data_val ex_heap 8 + Long_val (Val_long 0)) (size_t (Long_val (Val_long 4))) \<and>
   view_bytes (bigstringaf_blit_to_bigstring ex_heap 8 (Val_long 0) 16 (Val_long 2) (Val_long 4))
       (bigarray ex_heap 16) (Long_val (Val_long 2)) (Long_val (Val_long 4)) =
     [0, 1, 2, 3] \<and>
   view_bytes (bigstringaf_blit_to_bytes ex_heap 8 (Val_long 0) 40 (Val_long 3) (Val_long 4))
       (string ex_heap 40) (Long_val (Val_long 3)) (Long_val (Val_long 4)) =
     [0, 1, 2, 3] \<and>
   view_bytes (bigstringaf_blit_from_bytes ex_heap 40 (Val_long 3) 8 (Val_long 0) (Val_long 4))
       (bigarray ex_heap 8) (Long_val (Val_long 0)) (Long_val (Val_long 4)) =
     [68, 69, 0, 0] \<and>
   Long_val (fst (bigstringaf_memcmp_bigstring bytewise_libc ex_heap 8 (Val_long 0) 16 (Val_long 2) (Val_long 4))) \<noteq> 0 \<and>
   Long_val (fst (bigstringaf_memcmp_string bytewise_libc ex_heap 8 (Val_long 0) 40 (Val_long 3) (Val_long 4))) \<noteq> 0"
proof -
  have l: "0 \<le> Long_val (Val_long 4)"
    by (simp add: Long_val_numerals)
  have o: "\<not> in_bounds (bigarray ex_heap 16) (Long_val (Val_long 2)) (Long_val (Val_long 4))"
    "\<not> in_bounds (string ex_heap 40) (Long_val (Val_long 3)) (Long_val (Val_long 4))"
    by (simp_all add: in_bounds_def ex_tables Long_val_numerals)
  have dj: "disjoint_ranges (String_val ex_heap 40 + Long_val (Val_long 3))
     (Caml_ba_data_val ex_heap 8 + Long_val (Val_long 0)) (size_t (Long_val (Val_long 4)))"
    and dj': "disjoint_ranges (Caml_ba_data_val ex_heap 8 + Long_val (Val_long 0))
     (String_val ex_heap 40 + Long_val (Val_long 3)) (size_t (Long_val (Val_long 4)))"
    by (simp_all add: disjoint_ranges_def String_val_def Caml_ba_data_val_def ex_tables
        Long_val_numerals size_t_def)
  have s: "view_bytes ex_heap (bigarray ex_heap 8) (Long_val (Val_long 0)) (Long_val (Val_long 4)) =
     [0, 1, 2, 3]"
    using take_load [of 4 10 "mem ex_heap" 100]
    by (simp add: view_bytes_def ex_tables Long_val_numerals ex_loads)
  have s2: "view_bytes ex_heap (bigarray ex_heap 16) (Long_val (Val_long 2)) (Long_val (Val_long 4)) =
     [9, 9, 0, 0]"
    by (simp add: view_bytes_def ex_tables Long_val_numerals load_numeral load_Suc)
      (simp add: ex_heap_def ex_mem_def)
  have s3: "view_bytes ex_heap (string ex_heap 40) (Long_val (Val_long 3)) (Long_val (Val_long 4)) =
     [68, 69, 0, 0]"
    by (simp add: view_bytes_def ex_tables Long_val_numerals load_numeral load_Suc)
      (simp add: ex_heap_def ex_mem_def)
  note t = copies_and_compares_ignore_capacity
    [OF l, of ex_heap 8 "Val_long 0" 16 "Val_long 2" 40 "Val_long 3" bytewise_libc]
  from l o dj dj' t show ?thesis
    unfolding s s2 s3 by simp
qed

text \<open>
  C2, as the claim has it, fails: the Bigarray at 120 has capacity 4, the destination
  view at offset 2 of length 4 exceeds it, and \<open>bigstringaf_blit_to_bigstring\<close>
  nevertheless writes: two bytes of the region change, and two bytes behind its end.
\<close>

theorem bounds_enforcement_counterexample:
  "\<not> in_bounds (bigarray ex_heap 16) (Long_val (Val_long 2)) (Long_val (Val_long 4)) \<and>
   region_bytes ex_heap (bigarray ex_heap 16) = [9, 9, 9, 9] \<and>
   region_bytes (bigstringaf_blit_to_bigstring ex_heap 8 (Val_long 0) 16 (Val_long 2) (Val_long 4))
       (bigarray ex_heap 16) = [9, 9, 0, 1] \<and>
   load (mem ex_heap) 124 2 = [0, 0] \<and>
   load (mem (bigstringaf_blit_to_bigstring ex_heap 8 (Val_long 0) 16 (Val_long 2) (Val_long 4)))
       124 2 = [2, 3]"
proof -
  have o: "\<not> in_bounds (bigarray ex_heap 16) (Long_val (Val_long 2)) (Long_val (Val_long 4))"
    by (simp add: in_bounds_def ex_tables Long_val_numerals)
  have b: "region_bytes ex_heap (bigarray ex_heap 16) = [9, 9, 9, 9]"
    by (simp add: region_bytes_def ex_tables ex_loads)
  have m: "mem (bigstringaf_blit_to_bigstring ex_heap 8 (Val_long 0) 16 (Val_long 2) (Val_long 4)) =
      memmove (mem ex_heap) 122 100 4"
    by (simp add: mem_blit_to_bigstring ex_tables Long_val_numerals size_t_def)
  have a: "region_bytes (bigstringaf_blit_to_bigstring ex_heap 8 (Val_long 0) 16 (Val_long 2) (Val_long 4))
       (bigarray ex_heap 16) = [9, 9, 0, 1]"
    unfolding region_bytes_def m
    by (simp add: ex_tables load_numeral load_Suc memmove_apply)
      (simp add: ex_heap_def ex_mem_def)
  have c: "load (mem ex_heap) 124 2 = [0, 0]"
    by (simp add: load_numeral load_Suc) (simp add: ex_heap_def ex_mem_def)
  have d: "load (mem (bigstringaf_blit_to_bigstring ex_heap 8 (Val_long 0) 16 (Val_long 2) (Val_long 4)))
       124 2 = [2, 3]"
    unfolding m
    by (simp add: load_numeral load_Suc memmove_apply) (simp add: ex_heap_def ex_mem_def)
  from o b a c d show ?thesis by blast
qed

subsection \<open>The comparisons are lexicographic\<close>

lemma lexicographic_memcmp:
  assumes "xs = load m p n" and "ys = load m q n" and "r = memcmp libc m p q n"
  shows "(r = 0 \<longleftrightarrow> xs = ys) \<and>
         (\<forall>i<length xs. take i xs = take i ys \<and> xs ! i \<noteq> ys ! i \<longrightarrow>
            (r < 0 \<longleftrightarrow> xs ! i < ys ! i) \<and> (0 < r \<longleftrightarrow> ys ! i < xs ! i))"
proof -
  have len: "length xs = n" by (simp add: assms(1) length_load)
  have a: "r = 0 \<longleftrightarrow> xs = ys"
    unfolding assms by (rule memcmp_eq_0_iff)
  have b: "\<forall>i<length xs. take i xs = take i ys \<and> xs ! i \<noteq> ys ! i \<longrightarrow>
            (r < 0 \<longleftrightarrow> xs ! i < ys ! i) \<and> (0 < r \<longleftrightarrow> ys ! i < xs ! i)"
    unfolding len unfolding assms using memcmp_sign [of _ n m p q libc] by blast
  from a b show ?thesis ..
qed

text \<open>
  C4. Let \<open>xs\<close> and \<open>ys\<close> be the bytes of two Bigarray views of one length, both in
  bounds, and \<open>r\<close> the integer that \<open>bigstringaf_memcmp_bigstring\<close> returns for them,
  with any C library. Then \<open>r\<close> is 0 exactly when \<open>xs = ys\<close>; and at the first index
  \<open>i\<close> where they differ, \<open>r\<close> is negative when \<open>xs ! i < ys ! i\<close> and positive when
  \<open>ys ! i < xs ! i\<close>, the bytes being compared as unsigned numbers. The same holds of
  \<open>bigstringaf_memcmp_string\<close> for a Bigarray view and a string view of one length,
  both in bounds.
\<close>

theorem compare_lexicographic:
  "(in_bounds (bigarray h vba1) (Long_val vba1_off) (Long_val vlen) \<and>
    in_bounds (bigarray h vba2) (Long_val vba2_off) (Long_val vlen) \<longrightarrow>
      (let xs = view_bytes h (bigarray h vba1) (Long_val vba1_off) (Long_val vlen);
           ys = view_bytes h (bigarray h vba2) (Long_val vba2_off) (Long_val vlen);
           r = Long_val (fst (bigstringaf_memcmp_bigstring libc h vba1 vba1_off vba2 vba2_off vlen))
       in (r = 0 \<longleftrightarrow> xs = ys) \<and>
          (\<forall>i<length xs. take i xs = take i ys \<and> xs ! i \<noteq> ys ! i \<longrightarrow>
             (r < 0 \<longleftrightarrow> xs ! i < ys ! i) \<and> (0 < r \<longleftrightarrow> ys ! i < xs ! i)))) \<and>
   (in_bounds (bigarray h vba) (Long_val vba_off) (Long_val vlen) \<and>
    in_bounds (string h vstr) (Long_val vstr_off) (Long_val vlen) \<longrightarrow>
      (let xs = view_bytes h (bigarray h vba) (Long_val vba_off) (Long_val vlen);
           zs = view_bytes h (string h vstr) (Long_val vstr_off) (Long_val vlen);
           s = Long_val (fst (bigstringaf_memcmp_string libc h vba vba_off vstr vstr_off vlen))
       in (s = 0 \<longleftrightarrow> xs = zs) \<and>
          (\<forall>i<length xs. take i xs = take i zs \<and> xs ! i \<noteq> zs ! i \<longrightarrow>
             (s < 0 \<longleftrightarrow> xs ! i < zs ! i) \<and> (0 < s \<longleftrightarrow> zs ! i < xs ! i))))"
proof (intro conjI impI)
  assume "in_bounds (bigarray h vba1) (Long_val vba1_off) (Long_val vlen) \<and>
    in_bounds (bigarray h vba2) (Long_val vba2_off) (Long_val vlen)"
  then have sz: "size_t (Long_val vlen) = nat (Long_val vlen)"
    by (simp add: in_bounds_def size_t_Long_val)
  show "let xs = view_bytes h (bigarray h vba1) (Long_val vba1_off) (Long_val vlen);
           ys = view_bytes h (bigarray h vba2) (Long_val vba2_off) (Long_val vlen);
           r = Long_val (fst (bigstringaf_memcmp_bigstring libc h vba1 vba1_off vba2 vba2_off vlen))
       in (r = 0 \<longleftrightarrow> xs = ys) \<and>
          (\<forall>i<length xs. take i xs = take i ys \<and> xs ! i \<noteq> ys ! i \<longrightarrow>
             (r < 0 \<longleftrightarrow> xs ! i < ys ! i) \<and> (0 < r \<longleftrightarrow> ys ! i < xs ! i))"
    unfolding Let_def view_bytes_def result_memcmp_bigstring sz
    by (rule lexicographic_memcmp [OF refl refl refl])
next
  assume "in_bounds (bigarray h vba) (Long_val vba_off) (Long_val vlen) \<and>
    in_bounds (string h vstr) (Long_val vstr_off) (Long_val vlen)"
  then have sz: "size_t (Long_val vlen) = nat (Long_val vlen)"
    by (simp add: in_bounds_def size_t_Long_val)
  show "let xs = view_bytes h (bigarray h vba) (Long_val vba_off) (Long_val vlen);
           zs = view_bytes h (string h vstr) (Long_val vstr_off) (Long_val vlen);
           s = Long_val (fst (bigstringaf_memcmp_string libc h vba vba_off vstr vstr_off vlen))
       in (s = 0 \<longleftrightarrow> xs = zs) \<and>
          (\<forall>i<length xs. take i xs = take i zs \<and> xs ! i \<noteq> zs ! i \<longrightarrow>
             (s < 0 \<longleftrightarrow> xs ! i < zs ! i) \<and> (0 < s \<longleftrightarrow> zs ! i < xs ! i))"
    unfolding Let_def view_bytes_def result_memcmp_string sz
    by (rule lexicographic_memcmp [OF refl refl refl])
qed

theorem compare_lexicographic_witness:
  "in_bounds (bigarray ex_heap 24) (Long_val (Val_long 0)) (Long_val (Val_long 3)) \<and>
   in_bounds (bigarray ex_heap 32) (Long_val (Val_long 0)) (Long_val (Val_long 3)) \<and>
   in_bounds (string ex_heap 40) (Long_val (Val_long 0)) (Long_val (Val_long 3)) \<and>
   view_bytes ex_heap (bigarray ex_heap 24) (Long_val (Val_long 0)) (Long_val (Val_long 3)) = [1, 2, 3] \<and>
   view_bytes ex_heap (bigarray ex_heap 32) (Long_val (Val_long 0)) (Long_val (Val_long 3)) = [1, 2, 4] \<and>
   view_bytes ex_heap (string ex_heap 40) (Long_val (Val_long 0)) (Long_val (Val_long 3)) = [65, 66, 67] \<and>
   Long_val (fst (bigstringaf_memcmp_bigstring aligning_libc ex_heap 24 (Val_long 0) 32 (Val_long 0) (Val_long 3))) < 0 \<and>
   0 < Long_val (fst (bigstringaf_memcmp_bigstring aligning_libc ex_heap 32 (Val_long 0) 24 (Val_long 0) (Val_long 3))) \<and>
   Long_val (fst (bigstringaf_memcmp_string aligning_libc ex_heap 24 (Val_long 0) 40 (Val_long 0) (Val_long 3))) < 0"
proof -
  have ib: "in_bounds (bigarray ex_heap 24) (Long_val (Val_long 0)) (Long_val (Val_long 3))"
    "in_bounds (bigarray ex_heap 32) (Long_val (Val_long 0)) (Long_val (Val_long 3))"
    "in_bounds (string ex_heap 40) (Long_val (Val_long 0)) (Long_val (Val_long 3))"
    by (simp_all add: in_bounds_def ex_tables Long_val_numerals)
  have xs: "view_bytes ex_heap (bigarray ex_heap 24) (Long_val (Val_long 0)) (Long_val (Val_long 3)) = [1, 2, 3]"
    and ys: "view_bytes ex_heap (bigarray ex_heap 32) (Long_val (Val_long 0)) (Long_val (Val_long 3)) = [1, 2, 4]"
    and zs: "view_bytes ex_heap (string ex_heap 40) (Long_val (Val_long 0)) (Long_val (Val_long 3)) = [65, 66, 67]"
    by (simp_all add: view_bytes_def ex_tables Long_val_numerals ex_loads)
      (simp add: ex_heap_def ex_mem_def load_numeral load_Suc)
  note t = compare_lexicographic
    [of ex_heap 24 "Val_long 0" "Val_long 3" 32 "Val_long 0" aligning_libc 24 "Val_long 0" 40 "Val_long 0",
      unfolded Let_def xs ys zs]
  note u = compare_lexicographic
    [of ex_heap 32 "Val_long 0" "Val_long 3" 24 "Val_long 0" aligning_libc 24 "Val_long 0" 40 "Val_long 0",
      unfolded Let_def xs ys zs]
  have r: "Long_val (fst (bigstringaf_memcmp_bigstring aligning_libc ex_heap 24 (Val_long 0) 32 (Val_long 0) (Val_long 3))) < 0"
    using t [THEN conjunct1, rule_format, OF conjI [OF ib(1,2)], THEN conjunct2, rule_format, of 2]
    by simp
  have r': "0 < Long_val (fst (bigstringaf_memcmp_bigstring aligning_libc ex_heap 32 (Val_long 0) 24 (Val_long 0) (Val_long 3)))"
    using u [THEN conjunct1, rule_format, OF conjI [OF ib(2,1)], THEN conjunct2, rule_format, of 2]
    by simp
  have s: "Long_val (fst (bigstringaf_memcmp_string aligning_libc ex_heap 24 (Val_long 0) 40 (Val_long 0) (Val_long 3))) < 0"
    using t [THEN conjunct2, rule_format, OF conjI [OF ib(1,3)], THEN conjunct2, rule_format, of 0]
    by simp
  from ib xs ys zs r r' s show ?thesis by blast
qed

subsection \<open>Comparing a view with itself, and in the other order\<close>







subsection \<open>What determines the outcome\<close>























end
